theory Spec2Isabelle
  imports Main "HOL-Library.Word"
begin

unbundle bit_operations_syntax

section \<open>The allocation hooks of \<open>fuzzers/libfuzzer_libmozjpeg/hook_allocs.c\<close>\<close>

text \<open>
  The file replaces \<open>malloc\<close> and \<open>calloc\<close>. Each hook hashes its return address into a
  bucket of the global array \<open>libafl_alloc_map\<close>, raises that bucket to the requested size,
  and then serves the request with \<open>posix_memalign\<close>.

  \<open>size_t\<close> and \<open>uintptr_t\<close> are taken as 64-bit unsigned integers (an LP64 target).
  Memory is a byte store indexed by 64-bit addresses; address 0 is \<open>NULL\<close>.
\<close>

subsection \<open>Constants and macros\<close>

type_synonym size_t = "64 word"
type_synonym uintptr_t = "64 word"
type_synonym memory = "uintptr_t \<Rightarrow> 8 word"

text \<open>\<open>#define MAP_SIZE (16*1024)\<close>\<close>

definition MAP_SIZE :: nat where
  "MAP_SIZE = 16 * 1024"

text \<open>\<open>#define MAX(a, b) ({ _a = (a); _b = (b); _a > _b ? _a : _b; })\<close>, on \<open>size_t\<close>
  (\<open>MAX\<close> is taken by the library's notation for maxima).\<close>

definition MAX_sz :: "size_t \<Rightarrow> size_t \<Rightarrow> size_t" where
  "MAX_sz a b = (let a' = a; b' = b in if a' > b' then a' else b')"

subsection \<open>The C library underneath\<close>

text \<open>
  \<open>posix_memalign\<close> belongs to the C library, not to this file, so the allocator is a
  parameter of the model: a function from its private state, the alignment and the size to
  an outcome and its next private state. On failure \<open>posix_memalign\<close> leaves \<open>*memptr\<close>
  as it was (POSIX.1-2008 TC2, and glibc); on success it stores the address there.
  The \<open>_WIN32\<close> macro of the file stores the result of \<open>_aligned_malloc\<close>, which is
  \<open>NULL\<close> on failure; since both hooks initialise \<open>ret\<close> to \<open>NULL\<close>, the two agree.
  The hooks ignore the returned error code, so the model does not carry it.
\<close>

datatype memalign_result = Failed | Placed uintptr_t

type_synonym 'h allocator = "'h \<Rightarrow> size_t \<Rightarrow> size_t \<Rightarrow> memalign_result \<times> 'h"

definition posix_memalign ::
  "'h allocator \<Rightarrow> uintptr_t \<Rightarrow> size_t \<Rightarrow> size_t \<Rightarrow> 'h \<Rightarrow> uintptr_t \<times> 'h" where
  "posix_memalign pm memptr alignment sz h =
     (case pm h alignment sz of
        (Failed, h') \<Rightarrow> (memptr, h')
      | (Placed p, h') \<Rightarrow> (p, h'))"

text \<open>
  \<open>memset(s, c, n)\<close> stores \<open>c\<close> into the \<open>n\<close> bytes from \<open>s\<close> on. A store through the
  null pointer is a fault: undefined behaviour in C, a segmentation fault on the hosted
  platforms the harness runs on. With \<open>n = 0\<close> no byte is stored.
\<close>

datatype fault = Segfault

definition memset :: "uintptr_t \<Rightarrow> 8 word \<Rightarrow> size_t \<Rightarrow> memory \<Rightarrow> fault + memory" where
  "memset s c n m =
     (if n = 0 then Inr m
      else if s = 0 then Inl Segfault
      else Inr (\<lambda>a. if a - s < n then c else m a))"

subsection \<open>Global state\<close>

text \<open>
  \<open>size_t libafl_alloc_map[MAP_SIZE];\<close> is a global with static storage, so it starts
  zeroed. The state also holds the byte memory and the allocator's private state.
\<close>

record 'h state =
  libafl_alloc_map :: "size_t list"
  mem :: memory
  heap :: 'h

definition initial_state :: "memory \<Rightarrow> 'h \<Rightarrow> 'h state" where
  "initial_state m h = \<lparr>libafl_alloc_map = replicate MAP_SIZE 0, mem = m, heap = h\<rparr>"

text \<open>The array has \<open>MAP_SIZE\<close> slots throughout.\<close>

definition map_ok :: "'h state \<Rightarrow> bool" where
  "map_ok st = (length (libafl_alloc_map st) = MAP_SIZE)"

subsection \<open>The hooks\<close>

text \<open>
  Lines 24 to 26 of the file, the same in both hooks; \<open>ra\<close> is
  \<open>__builtin_return_address(0)\<close>.
\<close>

definition bucket :: "uintptr_t \<Rightarrow> uintptr_t" where
  "bucket ra =
     (let k = ra;
          k = drop_bit 4 k XOR push_bit 8 k;
          k = k AND (of_nat MAP_SIZE - 1)
      in k)"

text \<open>Line 27 and line 45: \<open>libafl_alloc_map[k] = MAX(libafl_alloc_map[k], size);\<close>\<close>

definition record_size :: "uintptr_t \<Rightarrow> size_t \<Rightarrow> 'h state \<Rightarrow> 'h state" where
  "record_size k sz st =
     st\<lparr>libafl_alloc_map :=
          (libafl_alloc_map st)[unat k := MAX_sz (libafl_alloc_map st ! unat k) sz]\<rparr>"

type_synonym 'h outcome = "(fault + uintptr_t) \<times> 'h state"

definition malloc :: "'h allocator \<Rightarrow> uintptr_t \<Rightarrow> size_t \<Rightarrow> 'h state \<Rightarrow> 'h outcome" where
  "malloc pm ra sz st =
     (let k = bucket ra;
          st = record_size k sz st;
          ret = 0;
          (ret, h) = posix_memalign pm ret (push_bit 6 1) sz (heap st);
          st = st\<lparr>heap := h\<rparr>
      in (Inr ret, st))"

definition calloc ::
  "'h allocator \<Rightarrow> uintptr_t \<Rightarrow> size_t \<Rightarrow> size_t \<Rightarrow> 'h state \<Rightarrow> 'h outcome" where
  "calloc pm ra nmemb sz st =
     (let sz = sz * nmemb;
          k = bucket ra;
          st = record_size k sz st;
          ret = 0;
          (ret, h) = posix_memalign pm ret (push_bit 6 1) sz (heap st);
          st = st\<lparr>heap := h\<rparr>
      in case memset ret 0 sz (mem st) of
           Inl f \<Rightarrow> (Inl f, st)
         | Inr m \<Rightarrow> (Inr ret, st\<lparr>mem := m\<rparr>))"

subsection \<open>The calling program\<close>

text \<open>
  The program under test calls the hooks one after the other. A call names the hook, its
  return address and its arguments. A store through \<open>NULL\<close> ends the process, so the calls
  after a fault are not made; the state at the fault is kept, since the fuzzer reads
  \<open>libafl_alloc_map\<close> afterwards.
\<close>

datatype call = Malloc uintptr_t size_t | Calloc uintptr_t size_t size_t

fun call_site :: "call \<Rightarrow> uintptr_t" where
  "call_site (Malloc ra sz) = ra"
| "call_site (Calloc ra nmemb sz) = ra"

text \<open>The byte count a call asks for: \<open>size\<close>, or \<open>size *= nmemb\<close> in \<open>calloc\<close>.\<close>

fun requested :: "call \<Rightarrow> size_t" where
  "requested (Malloc ra sz) = sz"
| "requested (Calloc ra nmemb sz) = sz * nmemb"

fun exec :: "'h allocator \<Rightarrow> call \<Rightarrow> 'h state \<Rightarrow> 'h outcome" where
  "exec pm (Malloc ra sz) st = malloc pm ra sz st"
| "exec pm (Calloc ra nmemb sz) st = calloc pm ra nmemb sz st"

fun run :: "'h allocator \<Rightarrow> call list \<Rightarrow> 'h state \<Rightarrow> (fault + uintptr_t) list \<times> 'h state" where
  "run pm [] st = ([], st)"
| "run pm (c # cs) st =
     (case exec pm c st of
        (Inl f, st') \<Rightarrow> ([Inl f], st')
      | (Inr p, st') \<Rightarrow> (case run pm cs st' of (rs, st'') \<Rightarrow> (Inr p # rs, st'')))"

subsection \<open>Two allocators to run the hooks on\<close>

text \<open>An allocator with no memory left: every request fails.\<close>

definition no_memory :: "unit allocator" where
  "no_memory h alignment sz = (Failed, h)"

text \<open>
  An allocator that hands out the 4096-byte pages from address \<open>0x10000\<close> on, one page for
  each request, until \<open>n\<close> pages are gone. Its private state is the number of pages handed
  out. Requests larger than a page, and alignments that do not divide the page size, fail.
\<close>

definition pages :: "nat \<Rightarrow> nat allocator" where
  "pages n h alignment sz =
     (if h < n \<and> n \<le> 1024 \<and> unat sz \<le> 4096 \<and> alignment \<noteq> 0 \<and> 4096 mod unat alignment = 0
      then (Placed (of_nat (65536 + 4096 * h)), Suc h)
      else (Failed, h))"

definition zero_mem :: memory where
  "zero_mem = (\<lambda>a. 0)"

definition ones_mem :: memory where
  "ones_mem = (\<lambda>a. 255)"

section \<open>Properties\<close>

subsection \<open>The bucket index and the feedback update\<close>

lemma mask_val: "(of_nat MAP_SIZE - 1 :: 64 word) = 16383"
  by (simp add: MAP_SIZE_def)

lemma bucket_lt: "unat (bucket ra) < MAP_SIZE"
proof -
  have "bucket ra \<le> 16383"
    unfolding bucket_def Let_def mask_val by (rule word_and_le1)
  then have "unat (bucket ra) \<le> unat (16383 :: 64 word)"
    by (simp add: word_le_nat_alt)
  then show ?thesis by (simp add: MAP_SIZE_def)
qed

lemma MAX_sz_max: "MAX_sz a b = max a b"
  by (auto simp: MAX_sz_def Let_def max_def)

lemma map_record_size:
  "libafl_alloc_map (record_size k sz st) =
     (libafl_alloc_map st)[unat k := MAX_sz (libafl_alloc_map st ! unat k) sz]"
  by (simp add: record_size_def)

lemma heap_record_size: "heap (record_size k sz st) = heap st"
  by (simp add: record_size_def)

lemma mem_record_size: "mem (record_size k sz st) = mem st"
  by (simp add: record_size_def)

lemma map_malloc:
  "libafl_alloc_map (snd (malloc pm ra sz st)) =
     (libafl_alloc_map st)[unat (bucket ra) := MAX_sz (libafl_alloc_map st ! unat (bucket ra)) sz]"
  by (simp add: malloc_def Let_def map_record_size split: prod.splits)

lemma map_calloc:
  "libafl_alloc_map (snd (calloc pm ra nmemb sz st)) =
     (libafl_alloc_map st)[unat (bucket ra) :=
        MAX_sz (libafl_alloc_map st ! unat (bucket ra)) (sz * nmemb)]"
  by (simp add: calloc_def Let_def map_record_size split: prod.splits sum.splits)

lemma map_exec:
  "libafl_alloc_map (snd (exec pm c st)) =
     (libafl_alloc_map st)[unat (bucket (call_site c)) :=
        MAX_sz (libafl_alloc_map st ! unat (bucket (call_site c))) (requested c)]"
  by (cases c) (simp_all add: map_malloc map_calloc)

lemma nth_update_mono:
  fixes xs :: "size_t list"
  shows "xs ! j \<le> xs[k := MAX_sz (xs ! k) v] ! j"
proof (cases "k < length xs")
  case True
  then show ?thesis by (cases "j = k") (simp_all add: MAX_sz_max)
next
  case False
  then show ?thesis by (simp add: list_update_beyond)
qed

lemma exec_mono: "libafl_alloc_map st ! j \<le> libafl_alloc_map (snd (exec pm c st)) ! j"
  by (simp only: map_exec nth_update_mono)

lemma exec_length: "length (libafl_alloc_map (snd (exec pm c st))) = length (libafl_alloc_map st)"
  by (simp add: map_exec)


lemma snd_run_Cons:
  "snd (run pm (c # cs) st) =
     (case fst (exec pm c st) of
        Inl f \<Rightarrow> snd (exec pm c st)
      | Inr p \<Rightarrow> snd (run pm cs (snd (exec pm c st))))"
  by (simp split: prod.splits sum.splits)

lemma fst_run_Cons:
  "fst (run pm (c # cs) st) =
     (case fst (exec pm c st) of
        Inl f \<Rightarrow> [Inl f]
      | Inr p \<Rightarrow> Inr p # fst (run pm cs (snd (exec pm c st))))"
  by (simp split: prod.splits sum.splits)

lemma run_mono: "libafl_alloc_map st ! j \<le> libafl_alloc_map (snd (run pm cs st)) ! j"
proof (induction cs arbitrary: st)
  case Nil
  show ?case by simp
next
  case (Cons c cs)
  have m: "libafl_alloc_map st ! j \<le> libafl_alloc_map (snd (exec pm c st)) ! j"
    by (rule exec_mono)
  show ?case
  proof (cases "fst (exec pm c st)")
    case (Inl f)
    with m show ?thesis by (simp only: snd_run_Cons sum.case)
  next
    case (Inr p)
    have "libafl_alloc_map (snd (exec pm c st)) ! j
            \<le> libafl_alloc_map (snd (run pm cs (snd (exec pm c st)))) ! j"
      by (rule Cons.IH)
    with m have "libafl_alloc_map st ! j
            \<le> libafl_alloc_map (snd (run pm cs (snd (exec pm c st)))) ! j"
      by (rule order_trans)
    with Inr show ?thesis by (simp only: snd_run_Cons sum.case)
  qed
qed

lemma run_length: "length (libafl_alloc_map (snd (run pm cs st))) = length (libafl_alloc_map st)"
proof (induction cs arbitrary: st)
  case Nil
  show ?case by simp
next
  case (Cons c cs)
  show ?case
  proof (cases "fst (exec pm c st)")
    case (Inl f)
    then show ?thesis by (simp only: snd_run_Cons sum.case exec_length)
  next
    case (Inr p)
    then show ?thesis by (simp only: snd_run_Cons sum.case Cons.IH exec_length)
  qed
qed

lemma exec_records:
  assumes "map_ok st"
  shows "requested c \<le> libafl_alloc_map (snd (exec pm c st)) ! unat (bucket (call_site c))"
  using assms bucket_lt [of "call_site c"] by (simp add: map_exec map_ok_def MAX_sz_max)

lemma run_records:
  assumes "map_ok st" and "i < length (fst (run pm cs st))"
  shows "requested (cs ! i) \<le> libafl_alloc_map (snd (run pm cs st)) ! unat (bucket (call_site (cs ! i)))"
  using assms
proof (induction cs arbitrary: st i)
  case Nil
  then show ?case by simp
next
  case (Cons c cs)
  let ?st' = "snd (exec pm c st)"
  let ?k = "unat (bucket (call_site c))"
  have ok': "map_ok ?st'"
    using Cons.prems(1) by (simp add: map_ok_def exec_length)
  have here: "requested c \<le> libafl_alloc_map ?st' ! ?k"
    by (rule exec_records [OF Cons.prems(1)])
  show ?case
  proof (cases "fst (exec pm c st)")
    case (Inl f)
    with Cons.prems(2) have "i = 0" by (simp only: fst_run_Cons sum.case) simp
    with Inl here show ?thesis by (simp only: snd_run_Cons sum.case nth_Cons_0)
  next
    case (Inr p)
    show ?thesis
    proof (cases i)
      case 0
      have "libafl_alloc_map ?st' ! ?k \<le> libafl_alloc_map (snd (run pm cs ?st')) ! ?k"
        by (rule run_mono)
      with here have "requested c \<le> libafl_alloc_map (snd (run pm cs ?st')) ! ?k"
        by (rule order_trans)
      with 0 Inr show ?thesis by (simp only: snd_run_Cons sum.case nth_Cons_0)
    next
      case (Suc n)
      with Cons.prems(2) Inr have "n < length (fst (run pm cs ?st'))"
        by (simp only: fst_run_Cons sum.case) simp
      from Cons.IH [OF ok' this] Suc Inr show ?thesis
        by (simp only: snd_run_Cons sum.case nth_Cons_Suc)
    qed
  qed
qed

lemma map_ok_initial: "map_ok (initial_state m h)"
  by (simp add: map_ok_def initial_state_def)

lemma Max_requested:
  assumes "map_ok st" and "cs \<noteq> []" and "length (fst (run pm cs st)) = length cs"
    and "\<forall>c \<in> set cs. bucket (call_site c) = k"
  shows "Max (set (map requested cs)) \<le> libafl_alloc_map (snd (run pm cs st)) ! unat k"
proof -
  have "\<forall>s \<in> set (map requested cs). s \<le> libafl_alloc_map (snd (run pm cs st)) ! unat k"
  proof
    fix s assume "s \<in> set (map requested cs)"
    then obtain i where i: "i < length cs" and s: "s = requested (cs ! i)"
      by (auto simp: in_set_conv_nth)
    from i assms(3) have "i < length (fst (run pm cs st))" by simp
    from run_records [OF assms(1) this] have
      "requested (cs ! i) \<le> libafl_alloc_map (snd (run pm cs st)) ! unat (bucket (call_site (cs ! i)))" .
    moreover have "bucket (call_site (cs ! i)) = k" using assms(4) i by simp
    ultimately show "s \<le> libafl_alloc_map (snd (run pm cs st)) ! unat k" using s by simp
  qed
  moreover have "set (map requested cs) \<noteq> {}" using assms(2) by simp
  ultimately show ?thesis by simp
qed

subsection \<open>The map only grows\<close>

text \<open>
  C1. Every bucket of \<open>libafl_alloc_map\<close> is non-decreasing: across one call of either
  hook, and across any sequence of calls. Starting from the zeroed map, after a sequence of
  calls the bucket of every call that was made holds at least the size that call asked
  for; so when all the calls hash to bucket \<open>k\<close>, bucket \<open>k\<close> holds at least the
  maximum of the requested sizes.
\<close>

theorem feedback_map_monotone_and_max:
  "libafl_alloc_map st ! j \<le> libafl_alloc_map (snd (malloc pm ra sz st)) ! j
   \<and> libafl_alloc_map st ! j \<le> libafl_alloc_map (snd (calloc pm ra nmemb sz st)) ! j
   \<and> libafl_alloc_map st ! j \<le> libafl_alloc_map (snd (run pm cs st)) ! j
   \<and> (i < length (fst (run pm cs (initial_state m h))) \<longrightarrow>
        requested (cs ! i)
          \<le> libafl_alloc_map (snd (run pm cs (initial_state m h))) ! unat (bucket (call_site (cs ! i))))
   \<and> (cs \<noteq> [] \<and> length (fst (run pm cs (initial_state m h))) = length cs
        \<and> (\<forall>c \<in> set cs. bucket (call_site c) = k) \<longrightarrow>
        Max (set (map requested cs))
          \<le> libafl_alloc_map (snd (run pm cs (initial_state m h))) ! unat k)"
proof -
  have a: "libafl_alloc_map st ! j \<le> libafl_alloc_map (snd (malloc pm ra sz st)) ! j"
    using exec_mono [of st j pm "Malloc ra sz"] by simp
  have b: "libafl_alloc_map st ! j \<le> libafl_alloc_map (snd (calloc pm ra nmemb sz st)) ! j"
    using exec_mono [of st j pm "Calloc ra nmemb sz"] by simp
  have c: "libafl_alloc_map st ! j \<le> libafl_alloc_map (snd (run pm cs st)) ! j"
    by (rule run_mono)
  have d: "i < length (fst (run pm cs (initial_state m h))) \<longrightarrow>
        requested (cs ! i)
          \<le> libafl_alloc_map (snd (run pm cs (initial_state m h))) ! unat (bucket (call_site (cs ! i)))"
    by (intro impI, rule run_records [OF map_ok_initial])
  have e: "cs \<noteq> [] \<and> length (fst (run pm cs (initial_state m h))) = length cs
        \<and> (\<forall>c \<in> set cs. bucket (call_site c) = k) \<longrightarrow>
        Max (set (map requested cs))
          \<le> libafl_alloc_map (snd (run pm cs (initial_state m h))) ! unat k"
    by (intro impI, elim conjE, rule Max_requested [OF map_ok_initial])
  from a b c d e show ?thesis by blast
qed

theorem feedback_map_monotone_and_max_witness:
  "(1::nat) < length (fst (run (pages 8) [Malloc 0x401234 100, Calloc 0x401234 10 4, Malloc 0x401a00 7]
            (initial_state zero_mem 0)))
   \<and> [Malloc 0x401234 100, Calloc 0x401234 10 4] \<noteq> []
   \<and> length (fst (run (pages 8) [Malloc 0x401234 100, Calloc 0x401234 10 4] (initial_state zero_mem 0))) = 2
   \<and> bucket (call_site (Malloc 0x401234 100)) = 13603
   \<and> bucket (call_site (Calloc 0x401234 10 4)) = 13603
   \<and> 40 \<le> libafl_alloc_map (snd (run (pages 8) [Malloc 0x401234 100, Calloc 0x401234 10 4, Malloc 0x401a00 7]
            (initial_state zero_mem 0))) ! 13603
   \<and> 100 \<le> libafl_alloc_map (snd (run (pages 8) [Malloc 0x401234 100, Calloc 0x401234 10 4]
            (initial_state zero_mem 0))) ! 13603"
proof -
  let ?cs = "[Malloc 0x401234 100, Calloc 0x401234 10 4, Malloc 0x401a00 7]"
  let ?cs2 = "[Malloc 0x401234 100, Calloc 0x401234 10 4]"
  have r3: "fst (run (pages 8) ?cs (initial_state zero_mem 0)) = [Inr 65536, Inr 69632, Inr 73728]"
    by (simp add: malloc_def calloc_def posix_memalign_def pages_def memset_def Let_def
          record_size_def initial_state_def)
  have r2: "fst (run (pages 8) ?cs2 (initial_state zero_mem 0)) = [Inr 65536, Inr 69632]"
    by (simp add: malloc_def calloc_def posix_memalign_def pages_def memset_def Let_def
          record_size_def initial_state_def)
  have b: "bucket 0x401234 = 13603"
    by (simp add: bucket_def MAP_SIZE_def)
  have mx: "Max (set (map requested ?cs2)) = 100"
    by simp
  from feedback_map_monotone_and_max
         [of "initial_state zero_mem 0" 0 "pages 8" 0 0 0 ?cs 1 zero_mem 0 13603]
  have A: "40 \<le> libafl_alloc_map (snd (run (pages 8) ?cs (initial_state zero_mem 0))) ! 13603"
    using r3 b by simp
  from feedback_map_monotone_and_max
         [of "initial_state zero_mem 0" 0 "pages 8" 0 0 0 ?cs2 0 zero_mem 0 13603]
  have B: "100 \<le> libafl_alloc_map (snd (run (pages 8) ?cs2 (initial_state zero_mem 0))) ! 13603"
    using r2 b mx by simp
  from A B r3 r2 b show ?thesis by simp
qed

subsection \<open>The hash and its range\<close>

lemma m14: "(16383 :: 64 word) = mask 14"
  by (simp add: mask_eq_exp_minus_1)

lemma bucket_nat:
  "unat (bucket a) = (unat a div 16 XOR (unat a * 256) mod 2 ^ 64) mod 16384"
proof -
  have "bucket a = take_bit 14 (drop_bit 4 a XOR push_bit 8 a)"
    by (simp only: bucket_def Let_def mask_val m14 take_bit_eq_mask)
  then have "unat (bucket a) = take_bit 14 (unat (drop_bit 4 a XOR push_bit 8 a))"
    by (simp only: unsigned_take_bit_eq)
  also have "unat (drop_bit 4 a XOR push_bit 8 a) = unat (drop_bit 4 a) XOR unat (push_bit 8 a :: 64 word)"
    by (simp add: unsigned_xor_eq)
  also have "unat (drop_bit 4 a) = unat a div 16"
    by (simp only: unat_drop_bit_eq) (simp add: drop_bit_eq_div)
  also have "unat (push_bit 8 a :: 64 word) = (unat a * 256) mod 2 ^ 64"
    by (simp add: push_bit_eq_mult unat_word_ariths)
  finally show ?thesis by (simp add: take_bit_eq_mod)
qed

text \<open>
  C4. For every return address \<open>a\<close> both hooks index the map at
  \<open>((a >> 4) xor (a << 8)) & (16384 - 1)\<close>: the index is below 16384, and the map has
  16384 slots, before and after every call.
\<close>

theorem bucket_hash_in_range:
  "bucket a = (drop_bit 4 a XOR push_bit 8 a) AND (16384 - 1)
   \<and> unat (bucket a) = (unat a div 16 XOR (unat a * 256) mod 2 ^ 64) mod 16384
   \<and> unat (bucket a) < 16384
   \<and> length (libafl_alloc_map (initial_state m h)) = 16384
   \<and> libafl_alloc_map (snd (malloc pm a sz st))
       = (libafl_alloc_map st)[unat (bucket a) := MAX_sz (libafl_alloc_map st ! unat (bucket a)) sz]
   \<and> libafl_alloc_map (snd (calloc pm a nmemb sz st))
       = (libafl_alloc_map st)[unat (bucket a) :=
            MAX_sz (libafl_alloc_map st ! unat (bucket a)) (sz * nmemb)]
   \<and> length (libafl_alloc_map (snd (malloc pm a sz st))) = length (libafl_alloc_map st)
   \<and> length (libafl_alloc_map (snd (calloc pm a nmemb sz st))) = length (libafl_alloc_map st)"
proof -
  have 1: "bucket a = (drop_bit 4 a XOR push_bit 8 a) AND (16384 - 1)"
    by (simp add: bucket_def Let_def mask_val)
  have 3: "unat (bucket a) < 16384"
    using bucket_lt [of a] by (simp add: MAP_SIZE_def)
  have 4: "length (libafl_alloc_map (initial_state m h)) = 16384"
    by (simp add: initial_state_def MAP_SIZE_def)
  have 7: "length (libafl_alloc_map (snd (malloc pm a sz st))) = length (libafl_alloc_map st)"
    by (simp only: map_malloc length_list_update)
  have 8: "length (libafl_alloc_map (snd (calloc pm a nmemb sz st))) = length (libafl_alloc_map st)"
    by (simp only: map_calloc length_list_update)
  from 1 bucket_nat 3 4 map_malloc map_calloc 7 8 show ?thesis by blast
qed

subsection \<open>One bucket for each call\<close>

lemma exec_frame:
  "j \<noteq> unat (bucket (call_site c)) \<Longrightarrow>
     libafl_alloc_map (snd (exec pm c st)) ! j = libafl_alloc_map st ! j"
  by (simp add: map_exec)

lemma exec_bucket:
  "map_ok st \<Longrightarrow>
     libafl_alloc_map (snd (exec pm c st)) ! unat (bucket (call_site c))
       = MAX_sz (libafl_alloc_map st ! unat (bucket (call_site c))) (requested c)"
  using bucket_lt [of "call_site c"] by (simp add: map_exec map_ok_def)

lemma map_ok_exec: "map_ok st \<Longrightarrow> map_ok (snd (exec pm c st))"
  by (simp add: map_ok_def exec_length)

lemma unat_bucket_neq: "bucket a \<noteq> bucket b \<Longrightarrow> unat (bucket a) \<noteq> unat (bucket b)"
  by (simp add: word_unat_eq_iff)

text \<open>
  C7. One call of either hook leaves every bucket other than the one of its return address
  as it was. Two calls from the same return address raise the same bucket and no other.
  Two calls whose return addresses hash to different buckets do not affect each other's
  bucket: each bucket ends as its own call alone would have left it.
\<close>

theorem one_bucket_per_call:
  "(j \<noteq> unat (bucket ra) \<longrightarrow>
      libafl_alloc_map (snd (malloc pm ra sz st)) ! j = libafl_alloc_map st ! j
      \<and> libafl_alloc_map (snd (calloc pm ra nmemb sz st)) ! j = libafl_alloc_map st ! j)
   \<and> (map_ok st \<and> call_site c1 = call_site c2 \<longrightarrow>
        libafl_alloc_map (snd (exec pm c2 (snd (exec pm c1 st)))) ! unat (bucket (call_site c1))
          = MAX_sz (MAX_sz (libafl_alloc_map st ! unat (bucket (call_site c1))) (requested c1))
              (requested c2)
        \<and> (j \<noteq> unat (bucket (call_site c1)) \<longrightarrow>
             libafl_alloc_map (snd (exec pm c2 (snd (exec pm c1 st)))) ! j = libafl_alloc_map st ! j))
   \<and> (map_ok st \<and> bucket (call_site c1) \<noteq> bucket (call_site c2) \<longrightarrow>
        libafl_alloc_map (snd (exec pm c2 (snd (exec pm c1 st)))) ! unat (bucket (call_site c1))
          = MAX_sz (libafl_alloc_map st ! unat (bucket (call_site c1))) (requested c1)
        \<and> libafl_alloc_map (snd (exec pm c2 (snd (exec pm c1 st)))) ! unat (bucket (call_site c2))
          = MAX_sz (libafl_alloc_map st ! unat (bucket (call_site c2))) (requested c2))"
proof -
  have A: "j \<noteq> unat (bucket ra) \<longrightarrow>
      libafl_alloc_map (snd (malloc pm ra sz st)) ! j = libafl_alloc_map st ! j
      \<and> libafl_alloc_map (snd (calloc pm ra nmemb sz st)) ! j = libafl_alloc_map st ! j"
    using exec_frame [of j "Malloc ra sz" pm st] exec_frame [of j "Calloc ra nmemb sz" pm st]
    by simp
  have B: "map_ok st \<and> call_site c1 = call_site c2 \<longrightarrow>
        libafl_alloc_map (snd (exec pm c2 (snd (exec pm c1 st)))) ! unat (bucket (call_site c1))
          = MAX_sz (MAX_sz (libafl_alloc_map st ! unat (bucket (call_site c1))) (requested c1))
              (requested c2)
        \<and> (j \<noteq> unat (bucket (call_site c1)) \<longrightarrow>
             libafl_alloc_map (snd (exec pm c2 (snd (exec pm c1 st)))) ! j = libafl_alloc_map st ! j)"
  proof (intro impI conjI)
    assume h: "map_ok st \<and> call_site c1 = call_site c2"
    then have ok: "map_ok st" and eq: "call_site c1 = call_site c2" by simp_all
    show "libafl_alloc_map (snd (exec pm c2 (snd (exec pm c1 st)))) ! unat (bucket (call_site c1))
          = MAX_sz (MAX_sz (libafl_alloc_map st ! unat (bucket (call_site c1))) (requested c1))
              (requested c2)"
      using exec_bucket [OF map_ok_exec [OF ok], where c = c2 and pm = pm]
        exec_bucket [OF ok, where c = c1 and pm = pm] eq
      by simp
    assume "j \<noteq> unat (bucket (call_site c1))"
    then show "libafl_alloc_map (snd (exec pm c2 (snd (exec pm c1 st)))) ! j = libafl_alloc_map st ! j"
      using eq by (simp add: exec_frame)
  qed
  have C: "map_ok st \<and> bucket (call_site c1) \<noteq> bucket (call_site c2) \<longrightarrow>
        libafl_alloc_map (snd (exec pm c2 (snd (exec pm c1 st)))) ! unat (bucket (call_site c1))
          = MAX_sz (libafl_alloc_map st ! unat (bucket (call_site c1))) (requested c1)
        \<and> libafl_alloc_map (snd (exec pm c2 (snd (exec pm c1 st)))) ! unat (bucket (call_site c2))
          = MAX_sz (libafl_alloc_map st ! unat (bucket (call_site c2))) (requested c2)"
  proof (intro impI conjI)
    assume h: "map_ok st \<and> bucket (call_site c1) \<noteq> bucket (call_site c2)"
    then have ok: "map_ok st" and ne: "unat (bucket (call_site c1)) \<noteq> unat (bucket (call_site c2))"
      by (simp_all add: unat_bucket_neq)
    show "libafl_alloc_map (snd (exec pm c2 (snd (exec pm c1 st)))) ! unat (bucket (call_site c1))
          = MAX_sz (libafl_alloc_map st ! unat (bucket (call_site c1))) (requested c1)"
      using ne exec_bucket [OF ok, where c = c1 and pm = pm] by (simp add: exec_frame)
    show "libafl_alloc_map (snd (exec pm c2 (snd (exec pm c1 st)))) ! unat (bucket (call_site c2))
          = MAX_sz (libafl_alloc_map st ! unat (bucket (call_site c2))) (requested c2)"
      using ne exec_bucket [OF map_ok_exec [OF ok], where c = c2 and pm = pm]
      by (simp add: exec_frame)
  qed
  from A B C show ?thesis by blast
qed

lemma bucket_401234: "bucket 0x401234 = 13603"
  by (simp add: bucket_def MAP_SIZE_def)

lemma bucket_401a00: "bucket 0x401a00 = 416"
  by (simp add: bucket_def MAP_SIZE_def)

lemma initial_nth: "j < MAP_SIZE \<Longrightarrow> libafl_alloc_map (initial_state m h) ! j = 0"
  by (simp add: initial_state_def)

theorem one_bucket_per_call_witness:
  "(5::nat) \<noteq> unat (bucket 0x401234)
   \<and> libafl_alloc_map (snd (malloc (pages 8) 0x401234 100 (initial_state zero_mem 0))) ! 5 = 0
   \<and> libafl_alloc_map (snd (calloc (pages 8) 0x401234 10 100 (initial_state zero_mem 0))) ! 5 = 0
   \<and> map_ok (initial_state zero_mem (0::nat))
   \<and> call_site (Malloc 0x401234 100) = call_site (Calloc 0x401234 10 4)
   \<and> libafl_alloc_map (snd (exec (pages 8) (Calloc 0x401234 10 4)
         (snd (exec (pages 8) (Malloc 0x401234 100) (initial_state zero_mem 0))))) ! 13603 = 100
   \<and> bucket (call_site (Malloc 0x401234 100)) \<noteq> bucket (call_site (Calloc 0x401a00 10 4))
   \<and> libafl_alloc_map (snd (exec (pages 8) (Calloc 0x401a00 10 4)
         (snd (exec (pages 8) (Malloc 0x401234 100) (initial_state zero_mem 0))))) ! 13603 = 100
   \<and> libafl_alloc_map (snd (exec (pages 8) (Calloc 0x401a00 10 4)
         (snd (exec (pages 8) (Malloc 0x401234 100) (initial_state zero_mem 0))))) ! 416 = 40"
proof -
  let ?st = "initial_state zero_mem (0::nat)"
  have ok: "map_ok ?st" by (rule map_ok_initial)
  have z: "libafl_alloc_map ?st ! 5 = 0" "libafl_alloc_map ?st ! 13603 = 0"
    "libafl_alloc_map ?st ! 416 = 0"
    by (simp_all add: initial_nth MAP_SIZE_def)
  have mx: "MAX_sz (MAX_sz 0 100) 40 = 100" "MAX_sz 0 100 = 100" "MAX_sz 0 40 = 40"
    by (simp_all add: MAX_sz_def)
  note same = one_bucket_per_call
      [of 5 "0x401234" "pages 8" 100 ?st 10 "Malloc 0x401234 100" "Calloc 0x401234 10 4"]
  note diff = one_bucket_per_call
      [of 5 "0x401234" "pages 8" 100 ?st 10 "Malloc 0x401234 100" "Calloc 0x401a00 10 4"]
  have A: "libafl_alloc_map (snd (malloc (pages 8) 0x401234 100 ?st)) ! 5 = 0"
    "libafl_alloc_map (snd (calloc (pages 8) 0x401234 10 100 ?st)) ! 5 = 0"
    using same z by (simp_all add: bucket_401234)
  have B: "libafl_alloc_map (snd (exec (pages 8) (Calloc 0x401234 10 4)
         (snd (exec (pages 8) (Malloc 0x401234 100) ?st)))) ! 13603 = 100"
    using same ok z mx by (simp add: bucket_401234)
  have C: "libafl_alloc_map (snd (exec (pages 8) (Calloc 0x401a00 10 4)
         (snd (exec (pages 8) (Malloc 0x401234 100) ?st)))) ! 13603 = 100"
    "libafl_alloc_map (snd (exec (pages 8) (Calloc 0x401a00 10 4)
         (snd (exec (pages 8) (Malloc 0x401234 100) ?st)))) ! 416 = 40"
    using diff ok z mx by (simp_all add: bucket_401234 bucket_401a00)
  from A B C ok show ?thesis by (simp add: bucket_401234 bucket_401a00)
qed

subsection \<open>What a call returns and what it leaves behind\<close>

lemma fst_malloc:
  "fst (malloc pm ra sz st) =
     Inr (case fst (pm (heap st) (push_bit 6 1) sz) of Failed \<Rightarrow> 0 | Placed p \<Rightarrow> p)"
  by (simp add: malloc_def Let_def posix_memalign_def heap_record_size
        split: prod.splits memalign_result.splits)

lemma heap_malloc:
  "heap (snd (malloc pm ra sz st)) = snd (pm (heap st) (push_bit 6 1) sz)"
  by (simp add: malloc_def Let_def posix_memalign_def heap_record_size
        split: prod.splits memalign_result.splits)

lemma mem_malloc: "mem (snd (malloc pm ra sz st)) = mem st"
  by (simp add: malloc_def Let_def posix_memalign_def mem_record_size
        split: prod.splits memalign_result.splits)

lemma heap_calloc:
  "heap (snd (calloc pm ra nmemb sz st)) = snd (pm (heap st) (push_bit 6 1) (sz * nmemb))"
  by (simp add: calloc_def Let_def posix_memalign_def heap_record_size
        split: prod.splits memalign_result.splits sum.splits)

lemma fst_calloc:
  "fst (calloc pm ra nmemb sz st) =
     (case fst (pm (heap st) (push_bit 6 1) (sz * nmemb)) of
        Failed \<Rightarrow> (if sz * nmemb = 0 then Inr 0 else Inl Segfault)
      | Placed p \<Rightarrow> (if sz * nmemb \<noteq> 0 \<and> p = 0 then Inl Segfault else Inr p))"
  by (simp add: calloc_def Let_def posix_memalign_def heap_record_size mem_record_size memset_def
        split: prod.splits memalign_result.splits sum.splits)

lemma mem_calloc:
  "mem (snd (calloc pm ra nmemb sz st)) =
     (case fst (pm (heap st) (push_bit 6 1) (sz * nmemb)) of
        Failed \<Rightarrow> mem st
      | Placed p \<Rightarrow>
          (if sz * nmemb = 0 \<or> p = 0 then mem st
           else (\<lambda>a. if a - p < sz * nmemb then 0 else mem st a)))"
proof -
  obtain r h' where pm: "pm (heap st) (push_bit 6 1) (sz * nmemb) = (r, h')"
    by (cases "pm (heap st) (push_bit 6 1) (sz * nmemb)")
  show ?thesis
  proof (cases r)
    case Failed
    with pm show ?thesis
      by (simp add: calloc_def Let_def posix_memalign_def heap_record_size mem_record_size
            memset_def cong: if_cong)
  next
    case (Placed p)
    with pm show ?thesis
      by (simp add: calloc_def Let_def posix_memalign_def heap_record_size mem_record_size
            memset_def cong: if_cong)
  qed
qed

subsection \<open>A failed allocation is still recorded\<close>

lemma update_changes:
  fixes xs :: "size_t list"
  assumes "k < length xs" and "xs ! k < v"
  shows "xs[k := MAX_sz (xs ! k) v] \<noteq> xs"
proof
  assume "xs[k := MAX_sz (xs ! k) v] = xs"
  then have "xs[k := MAX_sz (xs ! k) v] ! k = xs ! k" by simp
  with assms(1) have "MAX_sz (xs ! k) v = xs ! k" by simp
  with assms(2) show False by (simp add: MAX_sz_max max_def split: if_splits)
qed

lemma no_memory_fails: "fst (no_memory h a s) = Failed"
  by (simp add: no_memory_def)

lemma update_same:
  fixes xs :: "size_t list"
  assumes "v \<le> xs ! k"
  shows "xs[k := MAX_sz (xs ! k) v] = xs"
proof -
  from assms have "MAX_sz (xs ! k) v = xs ! k"
    by (simp add: MAX_sz_max max_def)
  then show ?thesis by (simp only: list_update_id)
qed

lemma update_changes_iff:
  fixes xs :: "size_t list"
  assumes "k < length xs"
  shows "(xs[k := MAX_sz (xs ! k) v] \<noteq> xs) = (xs ! k < v)"
proof (cases "xs ! k < v")
  case True
  with assms show ?thesis by (simp add: update_changes)
next
  case False
  then have "v \<le> xs ! k" by simp
  then have "xs[k := MAX_sz (xs ! k) v] = xs" by (rule update_same)
  with False show ?thesis by simp
qed

text \<open>
  C10, as stated, says that a failed allocation never leaves the global state as it was.
  With an allocator that fails, \<open>malloc(0)\<close> on the zeroed map returns \<open>NULL\<close> and leaves
  the map, the memory and the allocator's state as they were; and once a failed
  \<open>malloc(8)\<close> has raised its bucket to 8, a second failed \<open>malloc(8)\<close> or
  \<open>calloc(1, 8)\<close> from the same call site leaves the map as it found it.
\<close>

theorem failed_allocation_may_change_nothing:
  "fst (no_memory (heap (initial_state zero_mem ())) (push_bit 6 1) 0) = Failed
   \<and> fst (malloc no_memory 0x401234 0 (initial_state zero_mem ())) = Inr 0
   \<and> libafl_alloc_map (snd (malloc no_memory 0x401234 0 (initial_state zero_mem ())))
        = libafl_alloc_map (initial_state zero_mem ())
   \<and> mem (snd (malloc no_memory 0x401234 0 (initial_state zero_mem ())))
        = mem (initial_state zero_mem ())
   \<and> heap (snd (malloc no_memory 0x401234 0 (initial_state zero_mem ())))
        = heap (initial_state zero_mem ())
   \<and> fst (malloc no_memory 0x401234 8
           (snd (malloc no_memory 0x401234 8 (initial_state zero_mem ())))) = Inr 0
   \<and> libafl_alloc_map (snd (malloc no_memory 0x401234 8
           (snd (malloc no_memory 0x401234 8 (initial_state zero_mem ())))))
        = libafl_alloc_map (snd (malloc no_memory 0x401234 8 (initial_state zero_mem ())))
   \<and> libafl_alloc_map (snd (calloc no_memory 0x401234 1 8
           (snd (malloc no_memory 0x401234 8 (initial_state zero_mem ())))))
        = libafl_alloc_map (snd (malloc no_memory 0x401234 8 (initial_state zero_mem ())))"
proof -
  let ?st = "initial_state zero_mem ()"
  let ?st1 = "snd (malloc no_memory 0x401234 8 ?st)"
  have z: "libafl_alloc_map ?st ! 13603 = 0"
    by (simp add: initial_nth MAP_SIZE_def)
  have len: "13603 < length (libafl_alloc_map ?st)"
    by (simp add: initial_state_def MAP_SIZE_def)
  have u: "unat (bucket 0x401234) = 13603"
    by (simp add: bucket_401234)
  have a: "libafl_alloc_map (snd (malloc no_memory 0x401234 0 ?st)) = libafl_alloc_map ?st"
    unfolding map_malloc u by (rule update_same) simp
  have one: "libafl_alloc_map ?st1 ! 13603 = 8"
    using z len by (simp add: map_malloc bucket_401234 MAX_sz_def)
  have b: "libafl_alloc_map (snd (malloc no_memory 0x401234 8 ?st1)) = libafl_alloc_map ?st1"
    unfolding map_malloc [of no_memory "0x401234" 8 ?st1] u
    by (rule update_same) (simp only: one order_refl)
  have c: "libafl_alloc_map (snd (calloc no_memory 0x401234 1 8 ?st1)) = libafl_alloc_map ?st1"
    unfolding map_calloc [of no_memory "0x401234" 1 8 ?st1] u
    by (rule update_same) (simp add: one)
  have d: "heap (snd (malloc no_memory 0x401234 0 ?st)) = heap ?st"
    by (simp add: heap_malloc no_memory_def)
  from a b c d show ?thesis
    by (simp add: fst_malloc mem_malloc no_memory_fails)
qed

text \<open>
  C10, amended. In both hooks the map is updated before the allocation is tried. When the
  allocator fails, bucket \<open>k\<close> still ends at least as large as the requested size (for
  \<open>calloc\<close>, the product), and \<open>malloc\<close> returns \<open>NULL\<close>. The map after the failed call
  differs from the map before it exactly when the request exceeds the old value of the
  bucket.
\<close>

theorem failed_allocation_still_recorded:
  "(map_ok st \<and> fst (pm (heap st) (push_bit 6 1) sz) = Failed \<longrightarrow>
      fst (malloc pm ra sz st) = Inr 0
      \<and> sz \<le> libafl_alloc_map (snd (malloc pm ra sz st)) ! unat (bucket ra)
      \<and> (libafl_alloc_map (snd (malloc pm ra sz st)) \<noteq> libafl_alloc_map st)
          = (libafl_alloc_map st ! unat (bucket ra) < sz))
   \<and> (map_ok st \<and> fst (pm (heap st) (push_bit 6 1) (sz * nmemb)) = Failed \<longrightarrow>
      sz * nmemb \<le> libafl_alloc_map (snd (calloc pm ra nmemb sz st)) ! unat (bucket ra)
      \<and> (libafl_alloc_map (snd (calloc pm ra nmemb sz st)) \<noteq> libafl_alloc_map st)
          = (libafl_alloc_map st ! unat (bucket ra) < sz * nmemb))"
proof -
  have A: "map_ok st \<and> fst (pm (heap st) (push_bit 6 1) sz) = Failed \<longrightarrow>
      fst (malloc pm ra sz st) = Inr 0
      \<and> sz \<le> libafl_alloc_map (snd (malloc pm ra sz st)) ! unat (bucket ra)
      \<and> (libafl_alloc_map (snd (malloc pm ra sz st)) \<noteq> libafl_alloc_map st)
          = (libafl_alloc_map st ! unat (bucket ra) < sz)"
  proof (intro impI conjI)
    assume h: "map_ok st \<and> fst (pm (heap st) (push_bit 6 1) sz) = Failed"
    then have ok: "map_ok st" by simp
    have len: "unat (bucket ra) < length (libafl_alloc_map st)"
      using ok bucket_lt [of ra] by (simp add: map_ok_def)
    show "fst (malloc pm ra sz st) = Inr 0"
      using h by (simp add: fst_malloc)
    show "sz \<le> libafl_alloc_map (snd (malloc pm ra sz st)) ! unat (bucket ra)"
      using exec_records [OF ok, of "Malloc ra sz" pm] by simp
    show "(libafl_alloc_map (snd (malloc pm ra sz st)) \<noteq> libafl_alloc_map st)
          = (libafl_alloc_map st ! unat (bucket ra) < sz)"
      by (simp only: map_malloc update_changes_iff [OF len])
  qed
  have B: "map_ok st \<and> fst (pm (heap st) (push_bit 6 1) (sz * nmemb)) = Failed \<longrightarrow>
      sz * nmemb \<le> libafl_alloc_map (snd (calloc pm ra nmemb sz st)) ! unat (bucket ra)
      \<and> (libafl_alloc_map (snd (calloc pm ra nmemb sz st)) \<noteq> libafl_alloc_map st)
          = (libafl_alloc_map st ! unat (bucket ra) < sz * nmemb)"
  proof (intro impI conjI)
    assume h: "map_ok st \<and> fst (pm (heap st) (push_bit 6 1) (sz * nmemb)) = Failed"
    then have ok: "map_ok st" by simp
    have len: "unat (bucket ra) < length (libafl_alloc_map st)"
      using ok bucket_lt [of ra] by (simp add: map_ok_def)
    show "sz * nmemb \<le> libafl_alloc_map (snd (calloc pm ra nmemb sz st)) ! unat (bucket ra)"
      using exec_records [OF ok, of "Calloc ra nmemb sz" pm] by simp
    show "(libafl_alloc_map (snd (calloc pm ra nmemb sz st)) \<noteq> libafl_alloc_map st)
          = (libafl_alloc_map st ! unat (bucket ra) < sz * nmemb)"
      by (simp only: map_calloc update_changes_iff [OF len])
  qed
  from A B show ?thesis by (rule conjI)
qed

theorem failed_allocation_still_recorded_witness:
  "map_ok (initial_state zero_mem ())
   \<and> fst (no_memory (heap (initial_state zero_mem ())) (push_bit 6 1) 8) = Failed
   \<and> libafl_alloc_map (initial_state zero_mem ()) ! unat (bucket 0x401234) < 8
   \<and> fst (malloc no_memory 0x401234 8 (initial_state zero_mem ())) = Inr 0
   \<and> 8 \<le> libafl_alloc_map (snd (malloc no_memory 0x401234 8 (initial_state zero_mem ()))) ! 13603
   \<and> libafl_alloc_map (snd (malloc no_memory 0x401234 8 (initial_state zero_mem ())))
        \<noteq> libafl_alloc_map (initial_state zero_mem ())
   \<and> 8 \<le> libafl_alloc_map (snd (calloc no_memory 0x401234 1 8 (initial_state zero_mem ()))) ! 13603
   \<and> libafl_alloc_map (snd (calloc no_memory 0x401234 1 8 (initial_state zero_mem ())))
        \<noteq> libafl_alloc_map (initial_state zero_mem ())"
proof -
  let ?st = "initial_state zero_mem ()"
  have ok: "map_ok ?st" by (rule map_ok_initial)
  have z: "libafl_alloc_map ?st ! 13603 = 0"
    by (simp add: initial_nth MAP_SIZE_def)
  from failed_allocation_still_recorded [of ?st no_memory 8 "0x401234" 1] ok z
  show ?thesis by (simp add: no_memory_fails bucket_401234)
qed

subsection \<open>Alignment\<close>

text \<open>
  C8. \<open>malloc\<close> asks \<open>posix_memalign\<close> for alignment \<open>1 << 6\<close>. So, for an allocator
  that places what it allocates at a multiple of the alignment it was asked for, every
  address other than \<open>NULL\<close> that \<open>malloc\<close> returns is a multiple of 64.
\<close>

theorem malloc_aligned_64:
  assumes "\<And>a p h'. pm (heap st) a sz = (Placed p, h') \<Longrightarrow> unat p mod unat a = 0"
    and "fst (malloc pm ra sz st) = Inr q"
    and "q \<noteq> 0"
  shows "unat q mod 64 = 0"
proof -
  obtain r h' where pm: "pm (heap st) (push_bit 6 1) sz = (r, h')"
    by (cases "pm (heap st) (push_bit 6 1) sz")
  show ?thesis
  proof (cases r)
    case Failed
    with pm assms(2) have "q = 0" by (simp add: fst_malloc)
    with assms(3) show ?thesis by simp
  next
    case (Placed p)
    with pm assms(2) have "q = p" by (simp add: fst_malloc)
    moreover from assms(1) [of "push_bit 6 1" p h'] pm Placed
    have "unat p mod unat (push_bit 6 1 :: 64 word) = 0" by simp
    ultimately show ?thesis by simp
  qed
qed

lemma pages_aligned:
  assumes "pages n h a sz = (Placed p, h')"
  shows "unat p mod unat a = 0"
proof -
  from assms have c: "h < n" "n \<le> 1024" "4096 mod unat a = 0"
    and p: "p = of_nat (65536 + 4096 * h)"
    by (auto simp: pages_def split: if_splits)
  from c have "65536 + 4096 * h < 2 ^ LENGTH(64)" by simp
  then have "(65536 + 4096 * h) mod 2 ^ LENGTH(64) = 65536 + 4096 * h"
    by (rule mod_less)
  then have "unat p = 65536 + 4096 * h"
    unfolding p by (simp only: unat_of_nat)
  moreover have "unat a dvd 4096" using c(3) by (simp add: dvd_eq_mod_eq_0)
  then have "unat a dvd 4096 * (16 + h)" by (rule dvd_mult2)
  ultimately show ?thesis by (simp add: algebra_simps)
qed

theorem malloc_aligned_64_witness:
  "fst (malloc (pages 8) 0x401234 100 (initial_state zero_mem 0)) = Inr 65536
   \<and> (65536 :: 64 word) \<noteq> 0
   \<and> unat (65536 :: 64 word) mod 64 = 0"
proof -
  have r: "fst (malloc (pages 8) 0x401234 100 (initial_state zero_mem 0)) = Inr 65536"
    by (simp add: fst_malloc pages_def initial_state_def)
  have n: "(65536 :: 64 word) \<noteq> 0" by simp
  have "unat (65536 :: 64 word) mod 64 = 0"
    using pages_aligned r n by (rule malloc_aligned_64)
  with r n show ?thesis by simp
qed

subsection \<open>The byte count of \<open>calloc\<close>\<close>

lemma product_wraps:
  fixes nmemb sz :: size_t
  shows "sz * nmemb = of_nat ((unat nmemb * unat sz) mod 2 ^ 64)"
proof -
  have "unat (sz * nmemb) = (unat nmemb * unat sz) mod 2 ^ 64"
    by (simp add: unat_word_ariths mult.commute)
  moreover have "unat (of_nat ((unat nmemb * unat sz) mod 2 ^ 64) :: size_t)
                   = (unat nmemb * unat sz) mod 2 ^ 64"
    by (simp add: unat_of_nat)
  ultimately show ?thesis by (simp only: word_unat_eq_iff)
qed

lemma calloc_by_total:
  "calloc pm ra nmemb sz st = calloc pm ra 1 (sz * nmemb) st"
  by (simp add: calloc_def)

lemma mem_calloc_returned:
  assumes "fst (calloc pm ra nmemb sz st) = Inr p" and "p \<noteq> 0"
  shows "mem (snd (calloc pm ra nmemb sz st)) =
           (\<lambda>a. if a - p < sz * nmemb then 0 else mem st a)"
proof (cases "fst (pm (heap st) (push_bit 6 1) (sz * nmemb))")
  case Failed
  with assms show ?thesis by (simp add: fst_calloc split: if_splits)
next
  case (Placed q)
  with assms have "q = p" by (simp add: fst_calloc split: if_splits)
  with Placed assms(2) show ?thesis
    by (cases "sz * nmemb = 0") (simp_all add: mem_calloc)
qed

text \<open>
  C3. \<open>calloc\<close> takes \<open>nmemb * size\<close> modulo \<open>2^64\<close> as its byte count, with no check
  for overflow: that wrapped total is what the map records, what \<open>posix_memalign\<close> is
  asked for, and the number of bytes zeroed; the call behaves exactly as the call for one
  element of the wrapped total.
\<close>

theorem calloc_total_wraps:
  "unat (requested (Calloc ra nmemb sz)) = (unat nmemb * unat sz) mod 2 ^ 64
   \<and> libafl_alloc_map (snd (calloc pm ra nmemb sz st))
       = (libafl_alloc_map st)[unat (bucket ra) :=
            MAX_sz (libafl_alloc_map st ! unat (bucket ra))
              (of_nat ((unat nmemb * unat sz) mod 2 ^ 64))]
   \<and> heap (snd (calloc pm ra nmemb sz st))
       = snd (pm (heap st) (push_bit 6 1) (of_nat ((unat nmemb * unat sz) mod 2 ^ 64)))
   \<and> (fst (calloc pm ra nmemb sz st) = Inr p \<and> p \<noteq> 0 \<longrightarrow>
        fst (pm (heap st) (push_bit 6 1) (of_nat ((unat nmemb * unat sz) mod 2 ^ 64))) = Placed p
        \<and> mem (snd (calloc pm ra nmemb sz st))
          = (\<lambda>a. if unat (a - p) < (unat nmemb * unat sz) mod 2 ^ 64 then 0 else mem st a))
   \<and> calloc pm ra nmemb sz st
       = calloc pm ra 1 (of_nat ((unat nmemb * unat sz) mod 2 ^ 64)) st"
proof -
  let ?t = "of_nat ((unat nmemb * unat sz) mod 2 ^ 64) :: size_t"
  have t: "sz * nmemb = ?t" by (rule product_wraps)
  have ut: "unat (sz * nmemb) = (unat nmemb * unat sz) mod 2 ^ 64"
    by (simp add: unat_word_ariths mult.commute)
  have 1: "unat (requested (Calloc ra nmemb sz)) = (unat nmemb * unat sz) mod 2 ^ 64"
    using ut by simp
  have 2: "libafl_alloc_map (snd (calloc pm ra nmemb sz st))
       = (libafl_alloc_map st)[unat (bucket ra) :=
            MAX_sz (libafl_alloc_map st ! unat (bucket ra)) ?t]"
    using map_calloc [of pm ra nmemb sz st] by (simp only: t)
  have 3: "heap (snd (calloc pm ra nmemb sz st)) = snd (pm (heap st) (push_bit 6 1) ?t)"
    using heap_calloc [of pm ra nmemb sz st] by (simp only: t)
  have 4: "fst (calloc pm ra nmemb sz st) = Inr p \<and> p \<noteq> 0 \<longrightarrow>
        fst (pm (heap st) (push_bit 6 1) ?t) = Placed p
        \<and> mem (snd (calloc pm ra nmemb sz st))
          = (\<lambda>a. if unat (a - p) < (unat nmemb * unat sz) mod 2 ^ 64 then 0 else mem st a)"
  proof (intro impI conjI)
    assume h: "fst (calloc pm ra nmemb sz st) = Inr p \<and> p \<noteq> 0"
    then have r: "fst (calloc pm ra nmemb sz st) = Inr p" and p: "p \<noteq> 0" by simp_all
    have "fst (pm (heap st) (push_bit 6 1) (sz * nmemb)) = Placed p"
      using r p
      by (cases "fst (pm (heap st) (push_bit 6 1) (sz * nmemb))")
         (simp_all add: fst_calloc split: if_splits)
    then show "fst (pm (heap st) (push_bit 6 1) ?t) = Placed p" by (simp only: t)
    have "mem (snd (calloc pm ra nmemb sz st)) =
           (\<lambda>a. if a - p < sz * nmemb then 0 else mem st a)"
      by (rule mem_calloc_returned [OF r p])
    also have "\<dots> = (\<lambda>a. if unat (a - p) < unat (sz * nmemb) then 0 else mem st a)"
      by (simp only: word_less_nat_alt)
    finally show "mem (snd (calloc pm ra nmemb sz st))
          = (\<lambda>a. if unat (a - p) < (unat nmemb * unat sz) mod 2 ^ 64 then 0 else mem st a)"
      by (simp only: ut)
  qed
  have 5: "calloc pm ra nmemb sz st = calloc pm ra 1 ?t st"
    using calloc_by_total [of pm ra nmemb sz st] by (simp only: t)
  show ?thesis
    by (rule conjI [OF 1 conjI [OF 2 conjI [OF 3 conjI [OF 4 5]]]])
qed

theorem calloc_total_wraps_witness:
  "fst (calloc (pages 8) 0x401234 0x8000000000000001 2 (initial_state ones_mem 0)) = Inr 65536
   \<and> (65536 :: 64 word) \<noteq> 0
   \<and> (unat (0x8000000000000001 :: 64 word) * unat (2 :: 64 word)) mod 2 ^ 64 = 2
   \<and> libafl_alloc_map (snd (calloc (pages 8) 0x401234 0x8000000000000001 2
         (initial_state ones_mem 0))) ! 13603 = 2
   \<and> mem (snd (calloc (pages 8) 0x401234 0x8000000000000001 2 (initial_state ones_mem 0))) 65537 = 0
   \<and> mem (snd (calloc (pages 8) 0x401234 0x8000000000000001 2 (initial_state ones_mem 0))) 65538 = 255"
proof -
  let ?st = "initial_state ones_mem (0::nat)"
  have r: "fst (calloc (pages 8) 0x401234 0x8000000000000001 2 ?st) = Inr 65536"
    by (simp add: fst_calloc pages_def initial_state_def)
  have n: "(65536 :: 64 word) \<noteq> 0" by simp
  have w: "(unat (0x8000000000000001 :: 64 word) * unat (2 :: 64 word)) mod 2 ^ 64 = 2"
    by simp
  have z: "libafl_alloc_map ?st ! 13603 = 0"
    by (simp add: initial_nth MAP_SIZE_def)
  have len: "13603 < length (libafl_alloc_map ?st)"
    by (simp add: initial_state_def MAP_SIZE_def)
  have mx: "MAX_sz 0 2 = 2" by (simp add: MAX_sz_def)
  have m0: "mem ?st = ones_mem" by (simp add: initial_state_def)
  note T = calloc_total_wraps [of "0x401234" "0x8000000000000001" 2 "pages 8" ?st 65536]
  have A: "libafl_alloc_map (snd (calloc (pages 8) 0x401234 0x8000000000000001 2 ?st)) ! 13603 = 2"
    using T [THEN conjunct2, THEN conjunct1] z len mx by (simp add: bucket_401234)
  have M: "mem (snd (calloc (pages 8) 0x401234 0x8000000000000001 2 ?st))
            = (\<lambda>a. if unat (a - 65536) < 2 then 0 else ones_mem a)"
    using T [THEN conjunct2, THEN conjunct2, THEN conjunct2, THEN conjunct1] r n m0
    by (simp cong: if_cong)
  have B: "mem (snd (calloc (pages 8) 0x401234 0x8000000000000001 2 ?st)) 65537 = 0"
    by (simp add: M)
  have C: "mem (snd (calloc (pages 8) 0x401234 0x8000000000000001 2 ?st)) 65538 = 255"
    by (simp only: M) (simp add: ones_mem_def)
  from r n w A B C show ?thesis by simp
qed

text \<open>
  C5. When \<open>count * elementSize\<close> does not overflow and \<open>posix_memalign\<close> succeeds for
  that many bytes at alignment 64, \<open>calloc\<close> returns the address it was given, and each
  of the \<open>count * elementSize\<close> bytes from that address on is zero.
\<close>

theorem calloc_returns_zeroed_region:
  assumes "unat nmemb * unat sz < 2 ^ 64"
    and "pm (heap st) (push_bit 6 1) (of_nat (unat nmemb * unat sz)) = (Placed p, h')"
    and "p \<noteq> 0 \<or> unat nmemb * unat sz = 0"
  shows "fst (calloc pm ra nmemb sz st) = Inr p
         \<and> (\<forall>i < unat nmemb * unat sz. mem (snd (calloc pm ra nmemb sz st)) (p + of_nat i) = 0)"
proof -
  have t: "sz * nmemb = of_nat (unat nmemb * unat sz)"
    using product_wraps [of sz nmemb] assms(1) by simp
  have ut: "unat (sz * nmemb) = unat nmemb * unat sz"
    using assms(1) by (simp add: unat_word_ariths mult.commute)
  have pm: "fst (pm (heap st) (push_bit 6 1) (sz * nmemb)) = Placed p"
    using assms(2) by (simp only: t fst_conv)
  have z: "sz * nmemb = 0 \<longleftrightarrow> unat nmemb * unat sz = 0"
    using ut by (simp only: unat_eq_0 [symmetric])
  have r: "fst (calloc pm ra nmemb sz st) = Inr p"
    using pm assms(3) z by (auto simp: fst_calloc)
  have "mem (snd (calloc pm ra nmemb sz st)) (p + of_nat i) = 0"
    if i: "i < unat nmemb * unat sz" for i
  proof -
    from i have nz: "sz * nmemb \<noteq> 0" and p: "p \<noteq> 0" using z assms(3) by auto
    have "unat (of_nat i :: size_t) = i"
      using i assms(1) by (simp add: unat_of_nat)
    then have "(of_nat i :: size_t) < sz * nmemb"
      using i ut by (simp add: word_less_nat_alt)
    then show ?thesis
      using pm nz p by (simp add: mem_calloc)
  qed
  with r show ?thesis by simp
qed

theorem calloc_returns_zeroed_region_witness:
  "unat (10 :: 64 word) * unat (4 :: 64 word) < 2 ^ 64
   \<and> pages 8 (heap (initial_state ones_mem 0)) (push_bit 6 1)
        (of_nat (unat (10 :: 64 word) * unat (4 :: 64 word))) = (Placed 65536, 1)
   \<and> (65536 :: 64 word) \<noteq> 0
   \<and> fst (calloc (pages 8) 0x401234 10 4 (initial_state ones_mem 0)) = Inr 65536
   \<and> mem (snd (calloc (pages 8) 0x401234 10 4 (initial_state ones_mem 0))) 65536 = 0
   \<and> mem (snd (calloc (pages 8) 0x401234 10 4 (initial_state ones_mem 0))) 65575 = 0
   \<and> mem (initial_state ones_mem (0::nat)) 65575 = 255"
proof -
  let ?st = "initial_state ones_mem (0::nat)"
  have a: "unat (10 :: 64 word) * unat (4 :: 64 word) < 2 ^ 64" by simp
  have b: "pages 8 (heap ?st) (push_bit 6 1)
        (of_nat (unat (10 :: 64 word) * unat (4 :: 64 word))) = (Placed 65536, 1)"
    by (simp add: pages_def initial_state_def)
  have c: "(65536 :: 64 word) \<noteq> 0 \<or> unat (10 :: 64 word) * unat (4 :: 64 word) = 0" by simp
  note T = calloc_returns_zeroed_region
      [where nmemb = 10 and sz = 4 and pm = "pages 8" and st = ?st and p = 65536 and h' = 1
         and ra = "0x401234", OF a b c]
  have d: "mem ?st 65575 = 255"
    by (simp add: initial_state_def ones_mem_def)
  have all: "mem (snd (calloc (pages 8) 0x401234 10 4 ?st)) (65536 + of_nat i) = 0"
    if "i < 40" for i
    using T that by simp
  have e: "mem (snd (calloc (pages 8) 0x401234 10 4 ?st)) 65536 = 0"
    using all [of 0] by simp
  have f: "mem (snd (calloc (pages 8) 0x401234 10 4 ?st)) 65575 = 0"
    using all [of 39] by simp
  from a b d e f T show ?thesis by simp
qed

subsection \<open>Allocation failure and zero-sized requests\<close>

text \<open>
  C2. The claim is that \<open>calloc\<close> skips the zeroing when the allocation fails. The hook calls
  \<open>memset(ret, 0, size)\<close> without looking at \<open>ret\<close>: with an allocator that fails,
  \<open>calloc(1, 8)\<close> stores through \<open>NULL\<close> and faults instead of returning \<open>NULL\<close>.
\<close>

theorem calloc_null_memset:
  "fst (no_memory (heap (initial_state zero_mem ())) (push_bit 6 1) (8 * 1)) = Failed
   \<and> fst (calloc no_memory 0x401234 1 8 (initial_state zero_mem ())) = Inl Segfault"
  by (simp add: fst_calloc no_memory_def)

text \<open>
  C6. The claim is that both hooks hand an allocation failure back as \<open>NULL\<close> and never end
  the process. \<open>malloc\<close> does: a request for 8192 bytes that the allocator cannot serve
  returns \<open>NULL\<close>. \<open>calloc\<close> does not: the same request as \<open>calloc(2, 4096)\<close>
  faults in \<open>memset\<close>, and the calls after it are never made.
\<close>

theorem calloc_failure_faults:
  "fst (pages 8 (heap (initial_state zero_mem 0)) (push_bit 6 1) 8192) = Failed
   \<and> fst (malloc (pages 8) 0x401234 8192 (initial_state zero_mem 0)) = Inr 0
   \<and> fst (calloc (pages 8) 0x401234 2 4096 (initial_state zero_mem 0)) = Inl Segfault
   \<and> fst (run (pages 8) [Calloc 0x401234 2 4096, Malloc 0x401234 16] (initial_state zero_mem 0))
        = [Inl Segfault]"
  by (simp add: fst_calloc fst_malloc pages_def initial_state_def fst_run_Cons
        del: run.simps(2))

text \<open>
  C9, as stated, asks that repeated calls of \<open>malloc(0)\<close> from one call site give the same
  kind of result. With an allocator that has one page left, the first call returns an
  address and the second returns \<open>NULL\<close>.
\<close>

theorem malloc_zero_not_repeatable:
  "fst (run (pages 1) [Malloc 0x401234 0, Malloc 0x401234 0] (initial_state zero_mem 0))
     = [Inr 65536, Inr 0]"
  by (simp add: fst_run_Cons fst_malloc heap_malloc pages_def initial_state_def
        del: run.simps(2))

text \<open>
  C9, amended. \<open>malloc(0)\<close> never faults: it returns \<open>NULL\<close> when \<open>posix_memalign\<close>
  fails and the address \<open>posix_memalign\<close> stored otherwise, so two calls in a row both
  return. Two calls give the same result whenever \<open>posix_memalign\<close> gives the same outcome
  for both; the hook itself adds nothing that could make them differ.
\<close>

theorem malloc_zero_returns:
  "fst (malloc pm ra 0 st)
     = Inr (case fst (pm (heap st) (push_bit 6 1) 0) of Failed \<Rightarrow> 0 | Placed p \<Rightarrow> p)
   \<and> length (fst (run pm [Malloc ra 0, Malloc ra 0] st)) = 2
   \<and> (fst (pm (heap st) (push_bit 6 1) 0) = fst (pm (heap st') (push_bit 6 1) 0) \<longrightarrow>
        fst (malloc pm ra 0 st) = fst (malloc pm ra' 0 st'))"
  by (simp add: fst_malloc fst_run_Cons del: run.simps(2))

theorem malloc_zero_returns_witness:
  "fst (no_memory (heap (initial_state zero_mem ())) (push_bit 6 1) 0)
     = fst (no_memory (heap (snd (malloc no_memory 0x401234 0 (initial_state zero_mem ()))))
              (push_bit 6 1) 0)
   \<and> fst (malloc no_memory 0x401234 0 (initial_state zero_mem ())) = Inr 0
   \<and> fst (malloc no_memory 0x401234 0
            (snd (malloc no_memory 0x401234 0 (initial_state zero_mem ())))) = Inr 0"
proof -
  let ?st = "initial_state zero_mem ()"
  let ?st' = "snd (malloc no_memory 0x401234 0 ?st)"
  have a: "fst (no_memory (heap ?st) (push_bit 6 1) 0)
             = fst (no_memory (heap ?st') (push_bit 6 1) 0)"
    by (simp add: no_memory_def)
  note T = malloc_zero_returns [of no_memory "0x401234" ?st ?st' "0x401234"]
  have b: "fst (malloc no_memory 0x401234 0 ?st) = Inr 0"
    using T [THEN conjunct1] by (simp add: no_memory_def)
  have c: "fst (malloc no_memory 0x401234 0 ?st') = Inr 0"
    using T [THEN conjunct2, THEN conjunct2] a b by simp
  from a b c show ?thesis by simp
qed

end
